theory Spec2Isabelle
  imports Main
begin

section \<open>Status codes\<close>

text \<open>
  Modelled from the spec: \<^verbatim>\<open>enum channel_status\<close> is declared in \<^verbatim>\<open>channel.h\<close>,
  which is not among the sources. The constructors are the status codes that section 6 of
  the specification lists and that \<^verbatim>\<open>channel.c\<close> returns.
\<close>

datatype channel_status =
  SUCCESS | CLOSED_ERROR | GENERIC_ERROR | CHANNEL_FULL | CHANNEL_EMPTY | DESTROY_ERROR

section \<open>The buffer collaborator\<close>

text \<open>
  Modelled from the spec: the buffer (\<^verbatim>\<open>buffer_create\<close>, \<^verbatim>\<open>buffer_add\<close>,
  \<^verbatim>\<open>buffer_remove\<close>, \<^verbatim>\<open>buffer_current_size\<close>, \<^verbatim>\<open>buffer_capacity\<close>,
  \<^verbatim>\<open>buffer_free\<close>) is not among the sources. Section 6 of the specification gives its
  contract: a fixed-capacity FIFO store of opaque item references, whose capacity is fixed
  at construction; \<^verbatim>\<open>add\<close> has the precondition \<open>current_size < capacity\<close>; \<^verbatim>\<open>remove\<close>
  has the precondition \<open>current_size > 0\<close> and dequeues the oldest item first;
  \<^verbatim>\<open>release\<close> frees all storage.

  The stored references are the list \<open>items\<close>, oldest first. \<open>buffer_freed\<close> records that
  the storage has been released. Outside their preconditions the specification says nothing
  about \<^verbatim>\<open>add\<close> and \<^verbatim>\<open>remove\<close>; here they leave the buffer (and the output slot) as they
  are. \<^verbatim>\<open>channel.c\<close> calls \<^verbatim>\<open>buffer_remove\<close> only on a non-empty buffer, and
  \<^verbatim>\<open>buffer_add\<close> only on a buffer whose size differs from its capacity.
\<close>

record 'a buffer_t =
  items :: "'a list"
  capacity :: nat
  buffer_freed :: bool

definition buffer_create :: "nat \<Rightarrow> 'a buffer_t" where
  "buffer_create n = \<lparr>items = [], capacity = n, buffer_freed = False\<rparr>"

definition buffer_current_size :: "'a buffer_t \<Rightarrow> nat" where
  "buffer_current_size b = length (items b)"

definition buffer_capacity :: "'a buffer_t \<Rightarrow> nat" where
  "buffer_capacity b = capacity b"

definition buffer_add :: "'a buffer_t \<Rightarrow> 'a \<Rightarrow> 'a buffer_t" where
  "buffer_add b x =
     (if buffer_current_size b < buffer_capacity b then b\<lparr>items := items b @ [x]\<rparr> else b)"

text \<open>
  \<^verbatim>\<open>buffer_remove(buffer, &out)\<close> writes the dequeued item into the caller's slot: the
  model takes the slot's old content and returns the new one beside the buffer.
\<close>

definition buffer_remove :: "'a buffer_t \<Rightarrow> 'a \<Rightarrow> 'a buffer_t \<times> 'a" where
  "buffer_remove b out =
     (case items b of
        [] \<Rightarrow> (b, out)
      | x # xs \<Rightarrow> (b\<lparr>items := xs\<rparr>, x))"

definition buffer_free :: "'a buffer_t \<Rightarrow> 'a buffer_t" where
  "buffer_free b = b\<lparr>buffer_freed := True\<rparr>"

section \<open>The channel\<close>

text \<open>
  The synchronisation objects of a channel, as one thread sees them. A mutex is unlocked,
  held by the calling thread, or destroyed; a condition variable is initialised or
  destroyed. POSIX condition variables keep no record of a signal that finds no waiter, so
  \<^verbatim>\<open>pthread_cond_signal\<close> and \<^verbatim>\<open>pthread_cond_broadcast\<close> leave the object as it is: the
  threads they wake are the environment of the call.
\<close>

datatype mutex_t = Unlocked | Locked | MutexDestroyed

datatype cond_t = CondInitialised | CondDestroyed

text \<open>
  Modelled from the spec: \<^verbatim>\<open>channel_t\<close> is declared in \<^verbatim>\<open>channel.h\<close>, which is not among
  the sources. The fields are those \<^verbatim>\<open>channel.c\<close> uses (and section 3 of the specification
  lists): \<^verbatim>\<open>buffer\<close>, \<^verbatim>\<open>lock\<close>, \<^verbatim>\<open>not_full\<close>, \<^verbatim>\<open>not_empty\<close>, \<^verbatim>\<open>closed\<close>.
  \<open>channel_freed\<close> records that \<^verbatim>\<open>free(channel)\<close> has released the channel's own storage.
\<close>

record 'a channel_t =
  buffer :: "'a buffer_t"
  lock :: mutex_t
  not_full :: cond_t
  not_empty :: cond_t
  closed :: bool
  channel_freed :: bool

subsection \<open>The pthread calls\<close>

text \<open>
  \<^verbatim>\<open>pthread_mutex_lock\<close> returns once the calling thread holds the mutex: the channel
  passed to an operation is the channel as it is at that moment.
\<close>

definition pthread_mutex_init :: "mutex_t" where
  "pthread_mutex_init = Unlocked"

definition pthread_cond_init :: "cond_t" where
  "pthread_cond_init = CondInitialised"

definition pthread_mutex_lock :: "mutex_t \<Rightarrow> mutex_t" where
  "pthread_mutex_lock m = Locked"

definition pthread_mutex_unlock :: "mutex_t \<Rightarrow> mutex_t" where
  "pthread_mutex_unlock m = Unlocked"

definition pthread_mutex_destroy :: "mutex_t \<Rightarrow> mutex_t" where
  "pthread_mutex_destroy m = MutexDestroyed"

definition pthread_cond_signal :: "cond_t \<Rightarrow> cond_t" where
  "pthread_cond_signal c = c"

definition pthread_cond_broadcast :: "cond_t \<Rightarrow> cond_t" where
  "pthread_cond_broadcast c = c"

definition pthread_cond_destroy :: "cond_t \<Rightarrow> cond_t" where
  "pthread_cond_destroy c = CondDestroyed"

text \<open>
  \<^verbatim>\<open>pthread_cond_wait\<close> releases the mutex, blocks, and returns with the mutex held again.
  While the thread is blocked the other threads own the channel: what the thread finds when
  it wakes is given from outside, as a \<open>wakeup\<close>: the buffer contents and the closed flag at
  that moment. The capacity is fixed at creation.
\<close>

type_synonym 'a wakeup = "'a list \<times> bool"

definition pthread_cond_wait :: "'a channel_t \<Rightarrow> 'a wakeup \<Rightarrow> 'a channel_t" where
  "pthread_cond_wait channel w =
     channel\<lparr>buffer := (buffer channel)\<lparr>items := fst w\<rparr>, closed := snd w, lock := Locked\<rparr>"

text \<open>
  A blocking call either returns a status, or is still blocked in \<^verbatim>\<open>pthread_cond_wait\<close>
  (with the mutex released) when the wakeups it is given are used up.
\<close>

datatype 'a outcome = Returned channel_status 'a | Waiting 'a

subsection \<open>channel_create\<close>

text \<open>
  The channel \<^verbatim>\<open>channel_create\<close> returns when both allocations succeed (when \<^verbatim>\<open>malloc\<close> or
  \<^verbatim>\<open>buffer_create\<close> fails it returns \<^verbatim>\<open>NULL\<close> and there is no channel).
\<close>

definition channel_create :: "nat \<Rightarrow> 'a channel_t" where
  "channel_create size' =
     \<lparr>buffer = buffer_create size',
      lock = pthread_mutex_init,
      not_full = pthread_cond_init,
      not_empty = pthread_cond_init,
      closed = False,
      channel_freed = False\<rparr>"

subsection \<open>channel_send\<close>

text \<open>
  The \<^verbatim>\<open>while\<close> loop of \<^verbatim>\<open>channel_send\<close>, entered with the mutex held. Each
  \<^verbatim>\<open>pthread_cond_wait\<close> takes the next wakeup.
\<close>

fun send_loop :: "'a channel_t \<Rightarrow> 'a \<Rightarrow> 'a wakeup list \<Rightarrow> 'a channel_t outcome" where
  "send_loop channel data ws =
     (if buffer_current_size (buffer channel) = buffer_capacity (buffer channel) then
        (if closed channel then
           Returned CLOSED_ERROR (channel\<lparr>lock := pthread_mutex_unlock (lock channel)\<rparr>)
         else
           (case ws of
              [] \<Rightarrow> Waiting (channel\<lparr>lock := Unlocked\<rparr>)
            | w # ws' \<Rightarrow> send_loop (pthread_cond_wait channel w) data ws'))
      else
        Returned SUCCESS
          (channel\<lparr>buffer := buffer_add (buffer channel) data,
                   not_empty := pthread_cond_signal (not_empty channel),
                   lock := pthread_mutex_unlock (lock channel)\<rparr>))"

definition channel_send :: "'a channel_t \<Rightarrow> 'a \<Rightarrow> 'a wakeup list \<Rightarrow> 'a channel_t outcome" where
  "channel_send channel data ws =
     send_loop (channel\<lparr>lock := pthread_mutex_lock (lock channel)\<rparr>) data ws"

subsection \<open>channel_receive\<close>

text \<open>
  The output slot \<^verbatim>\<open>void** data\<close> is caller memory: the model takes its old content and
  returns its new content beside the channel.
\<close>

fun receive_loop ::
  "'a channel_t \<Rightarrow> 'a \<Rightarrow> 'a wakeup list \<Rightarrow> ('a channel_t \<times> 'a) outcome" where
  "receive_loop channel data ws =
     (if buffer_current_size (buffer channel) = 0 then
        (if closed channel then
           Returned CLOSED_ERROR (channel\<lparr>lock := pthread_mutex_unlock (lock channel)\<rparr>, data)
         else
           (case ws of
              [] \<Rightarrow> Waiting (channel\<lparr>lock := Unlocked\<rparr>, data)
            | w # ws' \<Rightarrow> receive_loop (pthread_cond_wait channel w) data ws'))
      else
        (case buffer_remove (buffer channel) data of
           (b, data') \<Rightarrow>
             Returned SUCCESS
               (channel\<lparr>buffer := b,
                        not_full := pthread_cond_signal (not_full channel),
                        lock := pthread_mutex_unlock (lock channel)\<rparr>, data')))"

definition channel_receive ::
  "'a channel_t \<Rightarrow> 'a \<Rightarrow> 'a wakeup list \<Rightarrow> ('a channel_t \<times> 'a) outcome" where
  "channel_receive channel data ws =
     receive_loop (channel\<lparr>lock := pthread_mutex_lock (lock channel)\<rparr>) data ws"

subsection \<open>channel_non_blocking_send and channel_non_blocking_receive\<close>

definition channel_non_blocking_send ::
  "'a channel_t \<Rightarrow> 'a \<Rightarrow> channel_status \<times> 'a channel_t" where
  "channel_non_blocking_send channel data =
     (let channel = channel\<lparr>lock := pthread_mutex_lock (lock channel)\<rparr> in
      if closed channel then
        (CLOSED_ERROR, channel\<lparr>lock := pthread_mutex_unlock (lock channel)\<rparr>)
      else if buffer_current_size (buffer channel) = buffer_capacity (buffer channel) then
        (CHANNEL_FULL, channel\<lparr>lock := pthread_mutex_unlock (lock channel)\<rparr>)
      else
        (SUCCESS,
         channel\<lparr>buffer := buffer_add (buffer channel) data,
                 not_empty := pthread_cond_signal (not_empty channel),
                 lock := pthread_mutex_unlock (lock channel)\<rparr>))"

definition channel_non_blocking_receive ::
  "'a channel_t \<Rightarrow> 'a \<Rightarrow> channel_status \<times> 'a channel_t \<times> 'a" where
  "channel_non_blocking_receive channel data =
     (let channel = channel\<lparr>lock := pthread_mutex_lock (lock channel)\<rparr> in
      if closed channel then
        (CLOSED_ERROR, channel\<lparr>lock := pthread_mutex_unlock (lock channel)\<rparr>, data)
      else if buffer_current_size (buffer channel) = 0 then
        (CHANNEL_EMPTY, channel\<lparr>lock := pthread_mutex_unlock (lock channel)\<rparr>, data)
      else
        (case buffer_remove (buffer channel) data of
           (b, data') \<Rightarrow>
             (SUCCESS,
              channel\<lparr>buffer := b,
                      not_full := pthread_cond_signal (not_full channel),
                      lock := pthread_mutex_unlock (lock channel)\<rparr>, data')))"

subsection \<open>channel_close\<close>

definition channel_close :: "'a channel_t \<Rightarrow> channel_status \<times> 'a channel_t" where
  "channel_close channel =
     (let channel = channel\<lparr>lock := pthread_mutex_lock (lock channel)\<rparr> in
      if closed channel then
        (CLOSED_ERROR, channel\<lparr>lock := pthread_mutex_unlock (lock channel)\<rparr>)
      else
        (SUCCESS,
         channel\<lparr>closed := True,
                 not_empty := pthread_cond_broadcast (not_empty channel),
                 not_full := pthread_cond_broadcast (not_full channel),
                 lock := pthread_mutex_unlock (lock channel)\<rparr>))"

subsection \<open>channel_destroy\<close>

text \<open>\<^verbatim>\<open>channel_destroy\<close> takes no lock: it reads \<^verbatim>\<open>closed\<close> and releases the parts in turn.\<close>

definition channel_destroy :: "'a channel_t \<Rightarrow> channel_status \<times> 'a channel_t" where
  "channel_destroy channel =
     (if \<not> closed channel then (DESTROY_ERROR, channel)
      else
        (SUCCESS,
         channel\<lparr>buffer := buffer_free (buffer channel),
                 lock := pthread_mutex_destroy (lock channel),
                 not_full := pthread_cond_destroy (not_full channel),
                 not_empty := pthread_cond_destroy (not_empty channel),
                 channel_freed := True\<rparr>))"

subsection \<open>channel_select\<close>

text \<open>
  Modelled from the spec: \<^verbatim>\<open>select_t\<close> and its direction are declared in \<^verbatim>\<open>channel.h\<close>,
  which is not among the sources. Section 3 of the specification gives an entry as a tuple
  (channel, direction, payload slot), the direction being SEND or RECEIVE. The entry holds
  the state of the channel it points to.
\<close>

datatype direction = SEND | RECV

record 'a select_t =
  sel_channel :: "'a channel_t"
  sel_dir :: direction
  sel_data :: 'a

text \<open>
  The body of \<^verbatim>\<open>channel_select\<close> is \<^verbatim>\<open>return SUCCESS;\<close>. The model returns the status,
  the request list and the content of \<^verbatim>\<open>*selected_index\<close> after the call.
\<close>

definition channel_select ::
  "'a select_t list \<Rightarrow> nat \<Rightarrow> nat \<Rightarrow> channel_status \<times> 'a select_t list \<times> nat" where
  "channel_select channel_list channel_count selected_index =
     (SUCCESS, channel_list, selected_index)"

section \<open>Scenarios of one thread\<close>

text \<open>
  A thread that sends the items of a list one after the other, and a thread that receives
  \<open>n\<close> times, with no other thread at work: a call that has to wait is given no wakeup and
  never returns, and the scenario has no result (\<open>None\<close>). The result lists the statuses
  (and, for receives, what each call left in the output slot) in call order.
\<close>

fun send_each :: "'a channel_t \<Rightarrow> 'a list \<Rightarrow> (channel_status list \<times> 'a channel_t) option" where
  "send_each channel [] = Some ([], channel)"
| "send_each channel (x # xs) =
     (case channel_send channel x [] of
        Waiting _ \<Rightarrow> None
      | Returned st channel' \<Rightarrow>
          (case send_each channel' xs of
             None \<Rightarrow> None
           | Some (sts, channel'') \<Rightarrow> Some (st # sts, channel'')))"

fun receive_n ::
  "'a channel_t \<Rightarrow> nat \<Rightarrow> 'a \<Rightarrow> ((channel_status \<times> 'a) list \<times> 'a channel_t) option" where
  "receive_n channel 0 data = Some ([], channel)"
| "receive_n channel (Suc n) data =
     (case channel_receive channel data [] of
        Waiting _ \<Rightarrow> None
      | Returned st (channel', data') \<Rightarrow>
          (case receive_n channel' n data' of
             None \<Rightarrow> None
           | Some (rs, channel'') \<Rightarrow> Some ((st, data') # rs, channel'')))"

section \<open>Example channels\<close>

text \<open>
  Channels of capacity 1 and 2 in the states that \<^verbatim>\<open>channel_create\<close>, the sends and
  \<^verbatim>\<open>channel_close\<close> reach: open or closed, empty or holding items.
\<close>

definition ex_open_empty :: "nat channel_t" where
  "ex_open_empty =
     \<lparr>buffer = \<lparr>items = [], capacity = 1, buffer_freed = False\<rparr>,
      lock = Unlocked, not_full = CondInitialised, not_empty = CondInitialised,
      closed = False, channel_freed = False\<rparr>"

definition ex_open_full :: "nat channel_t" where
  "ex_open_full =
     \<lparr>buffer = \<lparr>items = [7], capacity = 1, buffer_freed = False\<rparr>,
      lock = Unlocked, not_full = CondInitialised, not_empty = CondInitialised,
      closed = False, channel_freed = False\<rparr>"

definition ex_open_two :: "nat channel_t" where
  "ex_open_two =
     \<lparr>buffer = \<lparr>items = [1, 2], capacity = 2, buffer_freed = False\<rparr>,
      lock = Unlocked, not_full = CondInitialised, not_empty = CondInitialised,
      closed = False, channel_freed = False\<rparr>"

definition ex_closed_full :: "nat channel_t" where
  "ex_closed_full =
     \<lparr>buffer = \<lparr>items = [7], capacity = 1, buffer_freed = False\<rparr>,
      lock = Unlocked, not_full = CondInitialised, not_empty = CondInitialised,
      closed = True, channel_freed = False\<rparr>"

definition ex_closed_empty :: "nat channel_t" where
  "ex_closed_empty =
     \<lparr>buffer = \<lparr>items = [], capacity = 1, buffer_freed = False\<rparr>,
      lock = Unlocked, not_full = CondInitialised, not_empty = CondInitialised,
      closed = True, channel_freed = False\<rparr>"

definition ex_closed_two :: "nat channel_t" where
  "ex_closed_two =
     \<lparr>buffer = \<lparr>items = [1, 2], capacity = 2, buffer_freed = False\<rparr>,
      lock = Unlocked, not_full = CondInitialised, not_empty = CondInitialised,
      closed = True, channel_freed = False\<rparr>"

definition ex_closed_space :: "nat channel_t" where
  "ex_closed_space =
     \<lparr>buffer = \<lparr>items = [], capacity = 2, buffer_freed = False\<rparr>,
      lock = Unlocked, not_full = CondInitialised, not_empty = CondInitialised,
      closed = True, channel_freed = False\<rparr>"

lemmas ex_defs =
  ex_open_empty_def ex_open_full_def ex_open_two_def
  ex_closed_full_def ex_closed_empty_def ex_closed_two_def ex_closed_space_def

section \<open>Unfolding the operations\<close>

declare send_loop.simps [simp del] receive_loop.simps [simp del]

lemmas pthread_defs =
  pthread_mutex_lock_def pthread_mutex_unlock_def pthread_mutex_destroy_def
  pthread_cond_signal_def pthread_cond_broadcast_def pthread_cond_destroy_def
  pthread_mutex_init_def pthread_cond_init_def

lemmas buffer_defs =
  buffer_current_size_def buffer_capacity_def buffer_add_def buffer_remove_def
  buffer_free_def buffer_create_def

text \<open>One equation for each way through the loop of \<^verbatim>\<open>channel_send\<close>.\<close>

lemma send_loop_full_closed:
  "buffer_current_size (buffer ch) = buffer_capacity (buffer ch) \<Longrightarrow> closed ch \<Longrightarrow>
   send_loop ch x ws = Returned CLOSED_ERROR (ch\<lparr>lock := Unlocked\<rparr>)"
  by (simp add: send_loop.simps pthread_defs)

lemma send_loop_full_open_Nil:
  "buffer_current_size (buffer ch) = buffer_capacity (buffer ch) \<Longrightarrow> \<not> closed ch \<Longrightarrow>
   send_loop ch x [] = Waiting (ch\<lparr>lock := Unlocked\<rparr>)"
  by (simp add: send_loop.simps)

lemma send_loop_full_open_Cons:
  "buffer_current_size (buffer ch) = buffer_capacity (buffer ch) \<Longrightarrow> \<not> closed ch \<Longrightarrow>
   send_loop ch x (w # ws) = send_loop (pthread_cond_wait ch w) x ws"
  by (simp add: send_loop.simps)

lemma send_loop_space:
  "buffer_current_size (buffer ch) \<noteq> buffer_capacity (buffer ch) \<Longrightarrow>
   send_loop ch x ws =
     Returned SUCCESS (ch\<lparr>buffer := buffer_add (buffer ch) x, lock := Unlocked\<rparr>)"
  by (simp add: send_loop.simps pthread_defs)

text \<open>The same for the loop of \<^verbatim>\<open>channel_receive\<close>.\<close>

lemma receive_loop_empty_closed:
  "items (buffer ch) = [] \<Longrightarrow> closed ch \<Longrightarrow>
   receive_loop ch d ws = Returned CLOSED_ERROR (ch\<lparr>lock := Unlocked\<rparr>, d)"
  by (simp add: receive_loop.simps pthread_defs buffer_defs)

lemma receive_loop_empty_open_Nil:
  "items (buffer ch) = [] \<Longrightarrow> \<not> closed ch \<Longrightarrow>
   receive_loop ch d [] = Waiting (ch\<lparr>lock := Unlocked\<rparr>, d)"
  by (simp add: receive_loop.simps buffer_defs)

lemma receive_loop_empty_open_Cons:
  "items (buffer ch) = [] \<Longrightarrow> \<not> closed ch \<Longrightarrow>
   receive_loop ch d (w # ws) = receive_loop (pthread_cond_wait ch w) d ws"
  by (simp add: receive_loop.simps buffer_defs)

lemma receive_loop_item:
  "items (buffer ch) = y # ys \<Longrightarrow>
   receive_loop ch d ws =
     Returned SUCCESS (ch\<lparr>buffer := (buffer ch)\<lparr>items := ys\<rparr>, lock := Unlocked\<rparr>, y)"
  by (simp add: receive_loop.simps pthread_defs buffer_defs)

lemma channel_send_space:
  "buffer_current_size (buffer ch) < buffer_capacity (buffer ch) \<Longrightarrow>
   channel_send ch x ws =
     Returned SUCCESS
       (ch\<lparr>buffer := (buffer ch)\<lparr>items := items (buffer ch) @ [x]\<rparr>, lock := Unlocked\<rparr>)"
  by (simp add: channel_send_def send_loop_space pthread_defs) (simp add: buffer_defs)

lemma channel_receive_item:
  "items (buffer ch) = y # ys \<Longrightarrow>
   channel_receive ch d ws =
     Returned SUCCESS (ch\<lparr>buffer := (buffer ch)\<lparr>items := ys\<rparr>, lock := Unlocked\<rparr>, y)"
  by (simp add: channel_receive_def receive_loop_item pthread_defs)

section \<open>Failing returns of the blocking calls\<close>

text \<open>
  A blocking send that returns anything but \<open>SUCCESS\<close> returns \<open>CLOSED_ERROR\<close>, with the
  mutex released, and the buffer holds what the thread last found in it: the contents at
  the call, or those of one of the wakeups.
\<close>

lemma send_loop_failing:
  "send_loop ch x ws = Returned st ch' \<Longrightarrow> st \<noteq> SUCCESS \<Longrightarrow>
   st = CLOSED_ERROR \<and> lock ch' = Unlocked \<and>
   items (buffer ch') \<in> set (items (buffer ch) # map fst ws)"
proof (induction ws arbitrary: ch)
  case Nil
  then show ?case
    by (cases "buffer_current_size (buffer ch) = buffer_capacity (buffer ch)"; cases "closed ch")
       (auto simp: send_loop_full_closed send_loop_full_open_Nil send_loop_space)
next
  case (Cons w ws)
  show ?case
  proof (cases "buffer_current_size (buffer ch) = buffer_capacity (buffer ch)")
    case False
    with Cons.prems show ?thesis by (simp add: send_loop_space)
  next
    case full: True
    show ?thesis
    proof (cases "closed ch")
      case True
      with full Cons.prems show ?thesis by (auto simp: send_loop_full_closed)
    next
      case False
      with full Cons.prems have "send_loop (pthread_cond_wait ch w) x ws = Returned st ch'"
        by (simp add: send_loop_full_open_Cons)
      from Cons.IH [OF this Cons.prems(2)] show ?thesis
        by (auto simp: pthread_cond_wait_def)
    qed
  qed
qed

text \<open>
  The same for a blocking receive; moreover the channel it leaves is closed and empty, and
  the output slot is as it was.
\<close>

lemma receive_loop_failing:
  "receive_loop ch d ws = Returned st (ch', d') \<Longrightarrow> st \<noteq> SUCCESS \<Longrightarrow>
   st = CLOSED_ERROR \<and> lock ch' = Unlocked \<and> closed ch' \<and> items (buffer ch') = [] \<and> d' = d \<and>
   items (buffer ch') \<in> set (items (buffer ch) # map fst ws)"
proof (induction ws arbitrary: ch)
  case Nil
  then show ?case
    by (cases "items (buffer ch)"; cases "closed ch")
       (auto simp: receive_loop_empty_closed receive_loop_empty_open_Nil receive_loop_item)
next
  case (Cons w ws)
  show ?case
  proof (cases "items (buffer ch)")
    case (Cons y ys)
    with Cons.prems show ?thesis by (simp add: receive_loop_item)
  next
    case empty: Nil
    show ?thesis
    proof (cases "closed ch")
      case True
      with empty Cons.prems show ?thesis by (auto simp: receive_loop_empty_closed)
    next
      case False
      with empty Cons.prems
      have "receive_loop (pthread_cond_wait ch w) d ws = Returned st (ch', d')"
        by (simp add: receive_loop_empty_open_Cons)
      from Cons.IH [OF this Cons.prems(2)]
      have ih: "st = CLOSED_ERROR" "lock ch' = Unlocked" "closed ch'" "items (buffer ch') = []"
        "d' = d"
        and mem: "items (buffer ch') \<in> set (items (buffer (pthread_cond_wait ch w)) # map fst ws)"
        by blast+
      have "items (buffer (pthread_cond_wait ch w)) = fst w"
        by (simp add: pthread_cond_wait_def)
      with mem have "items (buffer ch') \<in> set (items (buffer ch) # map fst (w # ws))"
        by auto
      with ih show ?thesis by blast
    qed
  qed
qed

text \<open>
  What a failing return of either loop has gone through. The call fails at once when it
  finds the channel closed, and then leaves the channel it found with the mutex released;
  otherwise it has waited, and goes on from what the next wakeup shows.
\<close>

lemma send_loop_failing_step:
  "send_loop ch x ws = Returned st ch' \<Longrightarrow> st \<noteq> SUCCESS \<Longrightarrow>
   (closed ch \<and> ch' = ch\<lparr>lock := Unlocked\<rparr>) \<or>
   (\<not> closed ch \<and>
    (\<exists>w ws'. ws = w # ws' \<and> send_loop (pthread_cond_wait ch w) x ws' = Returned st ch'))"
  by (cases "buffer_current_size (buffer ch) = buffer_capacity (buffer ch)"; cases "closed ch";
      cases ws)
     (auto simp: send_loop_full_closed send_loop_full_open_Nil send_loop_full_open_Cons
        send_loop_space)

lemma receive_loop_failing_step:
  "receive_loop ch d ws = Returned st (ch', d') \<Longrightarrow> st \<noteq> SUCCESS \<Longrightarrow>
   (closed ch \<and> ch' = ch\<lparr>lock := Unlocked\<rparr>) \<or>
   (\<not> closed ch \<and>
    (\<exists>w ws'. ws = w # ws' \<and>
       receive_loop (pthread_cond_wait ch w) d ws' = Returned st (ch', d')))"
  by (cases "items (buffer ch)"; cases "closed ch"; cases ws)
     (auto simp: receive_loop_empty_closed receive_loop_empty_open_Nil
        receive_loop_empty_open_Cons receive_loop_item)

text \<open>
  The wakeups a failing call has used are a prefix \<open>used\<close> of those it was given: the
  channel was open in every state the thread found before the last one and closed in the
  last one, and the buffer contents at the return are those of that last state, the one
  at the call when \<open>used\<close> is empty.
\<close>

lemma send_loop_failing_found:
  "send_loop ch x ws = Returned st ch' \<Longrightarrow> st \<noteq> SUCCESS \<Longrightarrow>
   \<exists>used rest. ws = used @ rest \<and>
     items (buffer ch') = last (items (buffer ch) # map fst used) \<and>
     last (closed ch # map snd used) \<and>
     True \<notin> set (butlast (closed ch # map snd used))"
proof (induction ws arbitrary: ch)
  case Nil
  from send_loop_failing_step [OF Nil.prems]
  have "closed ch" and "ch' = ch\<lparr>lock := Unlocked\<rparr>" by auto
  then have "[] = [] @ ([] :: 'a wakeup list) \<and>
     items (buffer ch') = last (items (buffer ch) # map fst ([] :: 'a wakeup list)) \<and>
     last (closed ch # map snd ([] :: 'a wakeup list)) \<and>
     True \<notin> set (butlast (closed ch # map snd ([] :: 'a wakeup list)))"
    by simp
  then show ?case by blast
next
  case (Cons w ws)
  from send_loop_failing_step [OF Cons.prems]
  consider (now) "closed ch" "ch' = ch\<lparr>lock := Unlocked\<rparr>"
    | (woken) "\<not> closed ch" "send_loop (pthread_cond_wait ch w) x ws = Returned st ch'"
    by auto
  then show ?case
  proof cases
    case now
    then have "w # ws = [] @ (w # ws) \<and>
       items (buffer ch') = last (items (buffer ch) # map fst ([] :: 'a wakeup list)) \<and>
       last (closed ch # map snd ([] :: 'a wakeup list)) \<and>
       True \<notin> set (butlast (closed ch # map snd ([] :: 'a wakeup list)))"
      by simp
    then show ?thesis by blast
  next
    case woken
    from Cons.IH [OF woken(2) Cons.prems(2)]
    obtain used rest where u: "ws = used @ rest"
      and i: "items (buffer ch') =
        last (items (buffer (pthread_cond_wait ch w)) # map fst used)"
      and c: "last (closed (pthread_cond_wait ch w) # map snd used)"
      and o: "True \<notin> set (butlast (closed (pthread_cond_wait ch w) # map snd used))"
      by blast
    have "w # ws = (w # used) @ rest \<and>
       items (buffer ch') = last (items (buffer ch) # map fst (w # used)) \<and>
       last (closed ch # map snd (w # used)) \<and>
       True \<notin> set (butlast (closed ch # map snd (w # used)))"
      using u i c o woken(1) by (simp add: pthread_cond_wait_def)
    then show ?thesis by blast
  qed
qed

lemma receive_loop_failing_found:
  "receive_loop ch d ws = Returned st (ch', d') \<Longrightarrow> st \<noteq> SUCCESS \<Longrightarrow>
   \<exists>used rest. ws = used @ rest \<and>
     items (buffer ch') = last (items (buffer ch) # map fst used) \<and>
     last (closed ch # map snd used) \<and>
     True \<notin> set (butlast (closed ch # map snd used))"
proof (induction ws arbitrary: ch)
  case Nil
  from receive_loop_failing_step [OF Nil.prems]
  have "closed ch" and "ch' = ch\<lparr>lock := Unlocked\<rparr>" by auto
  then have "[] = [] @ ([] :: 'a wakeup list) \<and>
     items (buffer ch') = last (items (buffer ch) # map fst ([] :: 'a wakeup list)) \<and>
     last (closed ch # map snd ([] :: 'a wakeup list)) \<and>
     True \<notin> set (butlast (closed ch # map snd ([] :: 'a wakeup list)))"
    by simp
  then show ?case by blast
next
  case (Cons w ws)
  from receive_loop_failing_step [OF Cons.prems]
  consider (now) "closed ch" "ch' = ch\<lparr>lock := Unlocked\<rparr>"
    | (woken) "\<not> closed ch"
        "receive_loop (pthread_cond_wait ch w) d ws = Returned st (ch', d')"
    by auto
  then show ?case
  proof cases
    case now
    then have "w # ws = [] @ (w # ws) \<and>
       items (buffer ch') = last (items (buffer ch) # map fst ([] :: 'a wakeup list)) \<and>
       last (closed ch # map snd ([] :: 'a wakeup list)) \<and>
       True \<notin> set (butlast (closed ch # map snd ([] :: 'a wakeup list)))"
      by simp
    then show ?thesis by blast
  next
    case woken
    from Cons.IH [OF woken(2) Cons.prems(2)]
    obtain used rest where u: "ws = used @ rest"
      and i: "items (buffer ch') =
        last (items (buffer (pthread_cond_wait ch w)) # map fst used)"
      and c: "last (closed (pthread_cond_wait ch w) # map snd used)"
      and o: "True \<notin> set (butlast (closed (pthread_cond_wait ch w) # map snd used))"
      by blast
    have "w # ws = (w # used) @ rest \<and>
       items (buffer ch') = last (items (buffer ch) # map fst (w # used)) \<and>
       last (closed ch # map snd (w # used)) \<and>
       True \<notin> set (butlast (closed ch # map snd (w # used)))"
      using u i c o woken(1) by (simp add: pthread_cond_wait_def)
    then show ?thesis by blast
  qed
qed

section \<open>Sequences of sends and receives\<close>

lemma send_each_appends:
  "length (items (buffer ch)) + length xs \<le> capacity (buffer ch) \<Longrightarrow>
   send_each ch xs =
     Some (replicate (length xs) SUCCESS,
           if xs = [] then ch
           else ch\<lparr>buffer := (buffer ch)\<lparr>items := items (buffer ch) @ xs\<rparr>, lock := Unlocked\<rparr>)"
proof (induction xs arbitrary: ch)
  case Nil
  then show ?case by simp
next
  case (Cons x xs)
  let ?ch' = "ch\<lparr>buffer := (buffer ch)\<lparr>items := items (buffer ch) @ [x]\<rparr>, lock := Unlocked\<rparr>"
  from Cons.prems have "buffer_current_size (buffer ch) < buffer_capacity (buffer ch)"
    by (simp add: buffer_defs)
  then have step: "channel_send ch x [] = Returned SUCCESS ?ch'"
    by (rule channel_send_space)
  from Cons.prems have "length (items (buffer ?ch')) + length xs \<le> capacity (buffer ?ch')"
    by simp
  from Cons.IH [OF this] step show ?case by simp
qed

lemma receive_n_takes:
  "items (buffer ch) = xs @ rest \<Longrightarrow>
   receive_n ch (length xs) d =
     Some (map (Pair SUCCESS) xs,
           if xs = [] then ch
           else ch\<lparr>buffer := (buffer ch)\<lparr>items := rest\<rparr>, lock := Unlocked\<rparr>)"
proof (induction xs arbitrary: ch d)
  case Nil
  then show ?case by simp
next
  case (Cons x xs)
  let ?ch' = "ch\<lparr>buffer := (buffer ch)\<lparr>items := xs @ rest\<rparr>, lock := Unlocked\<rparr>"
  from Cons.prems have step: "channel_receive ch d [] = Returned SUCCESS (?ch', x)"
    by (simp add: channel_receive_item)
  have "items (buffer ?ch') = xs @ rest" by simp
  from Cons.IH [OF this, of x] step show ?case by simp
qed

section \<open>The claims\<close>

subsection \<open>C1: a send on a closed channel\<close>

text \<open>
  Claim C1: on a channel whose closed flag is true, a send, blocking or non-blocking,
  returns \<open>CLOSED_ERROR\<close> and enqueues nothing, even when the buffer has free space.

  \<^verbatim>\<open>channel_non_blocking_send\<close> tests \<^verbatim>\<open>closed\<close> first and does so. \<^verbatim>\<open>channel_send\<close>
  tests \<^verbatim>\<open>closed\<close> only inside the loop that runs while the buffer is full: on the closed
  channel \<open>ex_closed_space\<close> (capacity 2, no items) it enqueues the item and returns
  \<open>SUCCESS\<close>, where the non-blocking send returns \<open>CLOSED_ERROR\<close>.
\<close>

theorem channel_send_closed_with_space:
  "channel_send ex_closed_space 5 [] =
     Returned SUCCESS (ex_closed_space\<lparr>buffer := (buffer ex_closed_space)\<lparr>items := [5]\<rparr>\<rparr>) \<and>
   channel_non_blocking_send ex_closed_space 5 = (CLOSED_ERROR, ex_closed_space)"
  by (simp add: ex_closed_space_def channel_send_def send_loop.simps
      channel_non_blocking_send_def pthread_defs buffer_defs Let_def)

subsection \<open>C2: select and the first ready entry\<close>

text \<open>
  Claim C2: when at least one entry's non-blocking operation would return \<open>SUCCESS\<close>,
  \<^verbatim>\<open>channel_select\<close> performs the operation of the first such entry, sets
  \<^verbatim>\<open>*selected_index\<close> to its index and returns \<open>SUCCESS\<close>.

  The body of \<^verbatim>\<open>channel_select\<close> is \<^verbatim>\<open>return SUCCESS;\<close>. On the list of three receive
  entries below, entry 0 is not ready (its channel is open and empty) and entry 1 is the
  first ready one; the call leaves \<^verbatim>\<open>*selected_index\<close> at 0 and the channel of entry 1
  with its item.
\<close>

theorem channel_select_first_ready_not_taken:
  "channel_select
     [\<lparr>sel_channel = ex_open_empty, sel_dir = RECV, sel_data = 0\<rparr>,
      \<lparr>sel_channel = ex_open_full, sel_dir = RECV, sel_data = 0\<rparr>,
      \<lparr>sel_channel = ex_open_two, sel_dir = RECV, sel_data = 0\<rparr>] 3 0 =
     (SUCCESS,
      [\<lparr>sel_channel = ex_open_empty, sel_dir = RECV, sel_data = 0\<rparr>,
       \<lparr>sel_channel = ex_open_full, sel_dir = RECV, sel_data = 0\<rparr>,
       \<lparr>sel_channel = ex_open_two, sel_dir = RECV, sel_data = 0\<rparr>], 0) \<and>
   channel_non_blocking_receive ex_open_empty 0 = (CHANNEL_EMPTY, ex_open_empty, 0) \<and>
   channel_non_blocking_receive ex_open_full 0 = (SUCCESS, ex_open_empty, 7)"
  by (simp add: channel_select_def channel_non_blocking_receive_def ex_open_empty_def
      ex_open_full_def pthread_defs buffer_defs Let_def)

subsection \<open>C3: receive on a closed channel\<close>

text \<open>
  Claim C3: on a closed channel whose buffer is not empty, the blocking
  \<^verbatim>\<open>channel_receive\<close> returns \<open>SUCCESS\<close> and dequeues the oldest item into the output
  slot; only when the channel is closed and the buffer is empty does it return
  \<open>CLOSED_ERROR\<close>, with no item produced.

  The first two parts hold whatever the wakeups \<open>ws\<close>: the call returns without waiting.
  For the third, the channel a \<open>CLOSED_ERROR\<close> return leaves is closed and empty and the
  slot is as it was; when no other thread wakes the caller (\<open>ws = []\<close>), the channel was
  closed and empty at the call.
\<close>

theorem channel_receive_closed_drains:
  "(\<forall>y ys. closed ch \<and> items (buffer ch) = y # ys \<longrightarrow>
      channel_receive ch d ws =
        Returned SUCCESS (ch\<lparr>buffer := (buffer ch)\<lparr>items := ys\<rparr>, lock := Unlocked\<rparr>, y)) \<and>
   (closed ch \<and> items (buffer ch) = [] \<longrightarrow>
      channel_receive ch d ws = Returned CLOSED_ERROR (ch\<lparr>lock := Unlocked\<rparr>, d)) \<and>
   (\<forall>ch' d'. channel_receive ch d ws = Returned CLOSED_ERROR (ch', d') \<longrightarrow>
      closed ch' \<and> items (buffer ch') = [] \<and> d' = d) \<and>
   (\<forall>r. channel_receive ch d [] = Returned CLOSED_ERROR r \<longrightarrow>
      closed ch \<and> items (buffer ch) = [])"
proof (intro conjI allI impI)
  fix y ys assume "closed ch \<and> items (buffer ch) = y # ys"
  then show "channel_receive ch d ws =
        Returned SUCCESS (ch\<lparr>buffer := (buffer ch)\<lparr>items := ys\<rparr>, lock := Unlocked\<rparr>, y)"
    by (simp add: channel_receive_item)
next
  assume "closed ch \<and> items (buffer ch) = []"
  then show "channel_receive ch d ws = Returned CLOSED_ERROR (ch\<lparr>lock := Unlocked\<rparr>, d)"
    by (simp add: channel_receive_def receive_loop_empty_closed pthread_defs)
next
  fix ch' d' assume "channel_receive ch d ws = Returned CLOSED_ERROR (ch', d')"
  then have "closed ch' \<and> items (buffer ch') = [] \<and> d' = d"
    using receive_loop_failing [of "ch\<lparr>lock := Locked\<rparr>" d ws CLOSED_ERROR ch' d']
    by (simp add: channel_receive_def pthread_defs)
  then show "closed ch'" "items (buffer ch') = []" "d' = d" by simp_all
next
  fix r assume a: "channel_receive ch d [] = Returned CLOSED_ERROR r"
  show "closed ch" using a
    by (cases "items (buffer ch)"; cases "closed ch")
       (auto simp: channel_receive_def pthread_defs receive_loop_empty_open_Nil receive_loop_item)
  show "items (buffer ch) = []" using a
    by (cases "items (buffer ch)") (auto simp: channel_receive_item)
qed

theorem channel_receive_closed_drains_witness:
  "closed ex_closed_two \<and> items (buffer ex_closed_two) = [1, 2] \<and>
   channel_receive ex_closed_two 0 [] =
     Returned SUCCESS
       (ex_closed_two\<lparr>buffer := (buffer ex_closed_two)\<lparr>items := [2]\<rparr>, lock := Unlocked\<rparr>, 1) \<and>
   closed ex_closed_empty \<and> items (buffer ex_closed_empty) = [] \<and>
   channel_receive ex_closed_empty 0 [] =
     Returned CLOSED_ERROR (ex_closed_empty\<lparr>lock := Unlocked\<rparr>, 0)"
proof -
  have a: "closed ex_closed_two" and b: "items (buffer ex_closed_two) = [1, 2]"
    by (simp_all add: ex_closed_two_def)
  have c: "closed ex_closed_empty" and e: "items (buffer ex_closed_empty) = []"
    by (simp_all add: ex_closed_empty_def)
  from channel_receive_closed_drains [of ex_closed_two 0 "[]"] a b
  have "channel_receive ex_closed_two 0 [] =
     Returned SUCCESS
       (ex_closed_two\<lparr>buffer := (buffer ex_closed_two)\<lparr>items := [2]\<rparr>, lock := Unlocked\<rparr>, 1)"
    by blast
  moreover from channel_receive_closed_drains [of ex_closed_empty 0 "[]"] c e
  have "channel_receive ex_closed_empty 0 [] =
     Returned CLOSED_ERROR (ex_closed_empty\<lparr>lock := Unlocked\<rparr>, 0)"
    by blast
  ultimately show ?thesis using a b c e by blast
qed

subsection \<open>C4: the non-blocking calls test closed before capacity\<close>

text \<open>
  Claim C4: \<^verbatim>\<open>channel_non_blocking_send\<close> and \<^verbatim>\<open>channel_non_blocking_receive\<close> return
  \<open>CLOSED_ERROR\<close> on a closed channel whatever the buffer holds; otherwise, on a full
  (send) or empty (receive) buffer, they return \<open>CHANNEL_FULL\<close> or \<open>CHANNEL_EMPTY\<close> with no
  side effect; otherwise they perform the operation and return \<open>SUCCESS\<close>.

  The channel each call leaves is the channel it found, with the mutex released, and with
  the item appended (send) or the oldest item taken out into the slot (receive) on
  \<open>SUCCESS\<close>.
\<close>

theorem non_blocking_closed_before_capacity:
  "(closed ch \<longrightarrow>
      channel_non_blocking_send ch x = (CLOSED_ERROR, ch\<lparr>lock := Unlocked\<rparr>) \<and>
      channel_non_blocking_receive ch d = (CLOSED_ERROR, ch\<lparr>lock := Unlocked\<rparr>, d)) \<and>
   (\<not> closed ch \<and> buffer_current_size (buffer ch) = buffer_capacity (buffer ch) \<longrightarrow>
      channel_non_blocking_send ch x = (CHANNEL_FULL, ch\<lparr>lock := Unlocked\<rparr>)) \<and>
   (\<not> closed ch \<and> buffer_current_size (buffer ch) = 0 \<longrightarrow>
      channel_non_blocking_receive ch d = (CHANNEL_EMPTY, ch\<lparr>lock := Unlocked\<rparr>, d)) \<and>
   (\<not> closed ch \<and> buffer_current_size (buffer ch) < buffer_capacity (buffer ch) \<longrightarrow>
      channel_non_blocking_send ch x =
        (SUCCESS,
         ch\<lparr>buffer := (buffer ch)\<lparr>items := items (buffer ch) @ [x]\<rparr>, lock := Unlocked\<rparr>)) \<and>
   (\<forall>y ys. \<not> closed ch \<and> items (buffer ch) = y # ys \<longrightarrow>
      channel_non_blocking_receive ch d =
        (SUCCESS, ch\<lparr>buffer := (buffer ch)\<lparr>items := ys\<rparr>, lock := Unlocked\<rparr>, y))"
  by (simp add: channel_non_blocking_send_def channel_non_blocking_receive_def
      pthread_defs buffer_defs Let_def)

theorem non_blocking_closed_before_capacity_witness:
  "channel_non_blocking_send ex_closed_full 8 = (CLOSED_ERROR, ex_closed_full) \<and>
   channel_non_blocking_receive ex_closed_empty 0 = (CLOSED_ERROR, ex_closed_empty, 0) \<and>
   channel_non_blocking_send ex_open_full 8 = (CHANNEL_FULL, ex_open_full) \<and>
   channel_non_blocking_receive ex_open_empty 0 = (CHANNEL_EMPTY, ex_open_empty, 0) \<and>
   channel_non_blocking_send ex_open_empty 7 = (SUCCESS, ex_open_full) \<and>
   channel_non_blocking_receive ex_open_full 0 = (SUCCESS, ex_open_empty, 7)"
  using non_blocking_closed_before_capacity [of ex_closed_full 8 0]
    non_blocking_closed_before_capacity [of ex_closed_empty 8 0]
    non_blocking_closed_before_capacity [of ex_open_full 8 0]
    non_blocking_closed_before_capacity [of ex_open_empty 7 0]
  by (simp add: ex_defs buffer_current_size_def buffer_capacity_def)

subsection \<open>C5: close\<close>

text \<open>
  Claim C5: \<^verbatim>\<open>channel_close\<close> on an open channel sets \<^verbatim>\<open>closed\<close> and returns
  \<open>SUCCESS\<close>; on a closed channel it returns \<open>CLOSED_ERROR\<close> and changes nothing; in
  neither case does it remove a buffered item.

  Each path takes the mutex and releases it: the channel after the call is the channel
  before it with the mutex unlocked and, on the first close, the flag set.
\<close>

theorem channel_close_idempotence:
  "(\<not> closed ch \<longrightarrow> channel_close ch = (SUCCESS, ch\<lparr>closed := True, lock := Unlocked\<rparr>)) \<and>
   (closed ch \<longrightarrow> channel_close ch = (CLOSED_ERROR, ch\<lparr>lock := Unlocked\<rparr>)) \<and>
   buffer (snd (channel_close ch)) = buffer ch"
  by (simp add: channel_close_def pthread_defs Let_def)

theorem channel_close_idempotence_witness:
  "channel_close ex_open_full = (SUCCESS, ex_closed_full) \<and>
   channel_close ex_closed_full = (CLOSED_ERROR, ex_closed_full) \<and>
   buffer (snd (channel_close ex_open_full)) = buffer ex_open_full"
  using channel_close_idempotence [of ex_open_full] channel_close_idempotence [of ex_closed_full]
  by (simp add: ex_open_full_def ex_closed_full_def)

subsection \<open>C6: destroy\<close>

text \<open>
  Claim C6: \<^verbatim>\<open>channel_destroy\<close> on a channel that is not closed returns \<open>DESTROY_ERROR\<close>
  and frees nothing, leaving the buffer, the closed flag and the synchronisation objects
  as they are; on a closed channel it releases all resources and returns \<open>SUCCESS\<close>.

  On the closed channel the buffer's storage is freed, the mutex and both condition
  variables are destroyed and the channel's own storage is freed.
\<close>

theorem channel_destroy_requires_closed:
  "(\<not> closed ch \<longrightarrow> channel_destroy ch = (DESTROY_ERROR, ch)) \<and>
   (closed ch \<longrightarrow>
      channel_destroy ch =
        (SUCCESS,
         ch\<lparr>buffer := (buffer ch)\<lparr>buffer_freed := True\<rparr>, lock := MutexDestroyed,
            not_full := CondDestroyed, not_empty := CondDestroyed, channel_freed := True\<rparr>))"
  by (simp add: channel_destroy_def pthread_defs buffer_defs)

theorem channel_destroy_requires_closed_witness:
  "channel_destroy ex_open_full = (DESTROY_ERROR, ex_open_full) \<and>
   channel_destroy ex_closed_full =
     (SUCCESS,
      \<lparr>buffer = \<lparr>items = [7], capacity = 1, buffer_freed = True\<rparr>,
       lock = MutexDestroyed, not_full = CondDestroyed, not_empty = CondDestroyed,
       closed = True, channel_freed = True\<rparr>)"
  using channel_destroy_requires_closed [of ex_open_full]
    channel_destroy_requires_closed [of ex_closed_full]
  by (simp add: ex_open_full_def ex_closed_full_def)

subsection \<open>C7: failing paths leave the buffer alone\<close>

text \<open>
  Claim C7: for send, receive, their non-blocking variants, close and destroy, in every
  channel state, a call that returns a status other than \<open>SUCCESS\<close> leaves the buffer
  contents exactly as they were before the call.

  The non-blocking calls, close and destroy leave the buffer they found, and so does a
  blocking call that no other thread wakes (\<open>ws = []\<close>). A blocking call may wait before
  it fails, and while it waits the other threads own the buffer. The wakeups it has used
  are a prefix \<open>used\<close> of \<open>ws\<close>, ending at the first state in which the thread finds the
  channel closed; the contents the call leaves are exactly those of the state it found
  last, \<open>last (items (buffer ch) # map fst used)\<close>: the call itself changes nothing.
\<close>

theorem failing_paths_keep_buffer:
  "(\<forall>st ch'. channel_send ch x ws = Returned st ch' \<and> st \<noteq> SUCCESS \<longrightarrow>
      (\<exists>used rest. ws = used @ rest \<and>
         items (buffer ch') = last (items (buffer ch) # map fst used) \<and>
         last (closed ch # map snd used) \<and>
         True \<notin> set (butlast (closed ch # map snd used)))) \<and>
   (\<forall>st ch' d'. channel_receive ch d ws = Returned st (ch', d') \<and> st \<noteq> SUCCESS \<longrightarrow>
      (\<exists>used rest. ws = used @ rest \<and>
         items (buffer ch') = last (items (buffer ch) # map fst used) \<and>
         last (closed ch # map snd used) \<and>
         True \<notin> set (butlast (closed ch # map snd used)))) \<and>
   (\<forall>st ch'. channel_send ch x [] = Returned st ch' \<and> st \<noteq> SUCCESS \<longrightarrow>
      buffer ch' = buffer ch) \<and>
   (\<forall>st ch' d'. channel_receive ch d [] = Returned st (ch', d') \<and> st \<noteq> SUCCESS \<longrightarrow>
      buffer ch' = buffer ch) \<and>
   (fst (channel_non_blocking_send ch x) \<noteq> SUCCESS \<longrightarrow>
      buffer (snd (channel_non_blocking_send ch x)) = buffer ch) \<and>
   (fst (channel_non_blocking_receive ch d) \<noteq> SUCCESS \<longrightarrow>
      buffer (fst (snd (channel_non_blocking_receive ch d))) = buffer ch) \<and>
   (fst (channel_close ch) \<noteq> SUCCESS \<longrightarrow> buffer (snd (channel_close ch)) = buffer ch) \<and>
   (fst (channel_destroy ch) \<noteq> SUCCESS \<longrightarrow> buffer (snd (channel_destroy ch)) = buffer ch)"
proof (intro conjI allI impI)
  fix st ch' assume "channel_send ch x ws = Returned st ch' \<and> st \<noteq> SUCCESS"
  then have "send_loop (ch\<lparr>lock := Locked\<rparr>) x ws = Returned st ch'" and "st \<noteq> SUCCESS"
    by (simp_all add: channel_send_def pthread_defs)
  from send_loop_failing_found [OF this]
  show "\<exists>used rest. ws = used @ rest \<and>
         items (buffer ch') = last (items (buffer ch) # map fst used) \<and>
         last (closed ch # map snd used) \<and>
         True \<notin> set (butlast (closed ch # map snd used))"
    by simp
next
  fix st ch' d' assume "channel_receive ch d ws = Returned st (ch', d') \<and> st \<noteq> SUCCESS"
  then have "receive_loop (ch\<lparr>lock := Locked\<rparr>) d ws = Returned st (ch', d')"
    and "st \<noteq> SUCCESS"
    by (simp_all add: channel_receive_def pthread_defs)
  from receive_loop_failing_found [OF this]
  show "\<exists>used rest. ws = used @ rest \<and>
         items (buffer ch') = last (items (buffer ch) # map fst used) \<and>
         last (closed ch # map snd used) \<and>
         True \<notin> set (butlast (closed ch # map snd used))"
    by simp
next
  fix st ch' assume "channel_send ch x [] = Returned st ch' \<and> st \<noteq> SUCCESS"
  then have "send_loop (ch\<lparr>lock := Locked\<rparr>) x [] = Returned st ch'" and "st \<noteq> SUCCESS"
    by (simp_all add: channel_send_def pthread_defs)
  from send_loop_failing_step [OF this] show "buffer ch' = buffer ch"
    by auto
next
  fix st ch' d' assume "channel_receive ch d [] = Returned st (ch', d') \<and> st \<noteq> SUCCESS"
  then have "receive_loop (ch\<lparr>lock := Locked\<rparr>) d [] = Returned st (ch', d')"
    and "st \<noteq> SUCCESS"
    by (simp_all add: channel_receive_def pthread_defs)
  from receive_loop_failing_step [OF this] show "buffer ch' = buffer ch"
    by auto
next
  assume "fst (channel_non_blocking_send ch x) \<noteq> SUCCESS"
  then show "buffer (snd (channel_non_blocking_send ch x)) = buffer ch"
    by (simp add: channel_non_blocking_send_def Let_def split: if_splits)
next
  assume "fst (channel_non_blocking_receive ch d) \<noteq> SUCCESS"
  then show "buffer (fst (snd (channel_non_blocking_receive ch d))) = buffer ch"
    by (simp add: channel_non_blocking_receive_def Let_def split: if_splits prod.splits)
next
  show "buffer (snd (channel_close ch)) = buffer ch"
    by (simp add: channel_close_def Let_def)
next
  assume "fst (channel_destroy ch) \<noteq> SUCCESS"
  then show "buffer (snd (channel_destroy ch)) = buffer ch"
    by (simp add: channel_destroy_def split: if_splits)
qed

text \<open>
  A sender blocked on the full open channel wakes twice: first to \<open>[9]\<close> in an open
  channel, where it waits again, then to \<open>[5]\<close> in a closed channel, where it fails. It
  leaves \<open>[5]\<close>, what it found last.
\<close>

theorem failing_paths_keep_buffer_witness:
  "channel_send ex_open_full 8 [([9], False), ([5], True)] =
     Returned CLOSED_ERROR (ex_closed_full\<lparr>buffer := (buffer ex_closed_full)\<lparr>items := [5]\<rparr>\<rparr>) \<and>
   CLOSED_ERROR \<noteq> SUCCESS \<and>
   (\<exists>used rest. [([9], False), ([5], True)] = used @ rest \<and>
      items (buffer (ex_closed_full\<lparr>buffer := (buffer ex_closed_full)\<lparr>items := [5]\<rparr>\<rparr>)) =
        last (items (buffer ex_open_full) # map fst used) \<and>
      last (closed ex_open_full # map snd used) \<and>
      True \<notin> set (butlast (closed ex_open_full # map snd used))) \<and>
   channel_send ex_closed_full 8 [] = Returned CLOSED_ERROR ex_closed_full \<and>
   fst (channel_non_blocking_send ex_open_full 8) = CHANNEL_FULL \<and>
   buffer (snd (channel_non_blocking_send ex_open_full 8)) = buffer ex_open_full \<and>
   fst (channel_destroy ex_open_full) = DESTROY_ERROR \<and>
   buffer (snd (channel_destroy ex_open_full)) = buffer ex_open_full"
proof -
  have s: "channel_send ex_open_full 8 [([9], False), ([5], True)] =
     Returned CLOSED_ERROR (ex_closed_full\<lparr>buffer := (buffer ex_closed_full)\<lparr>items := [5]\<rparr>\<rparr>)"
    by (simp add: ex_open_full_def ex_closed_full_def channel_send_def send_loop.simps
        pthread_cond_wait_def pthread_defs buffer_defs)
  have t: "channel_send ex_closed_full 8 [] = Returned CLOSED_ERROR ex_closed_full"
    by (simp add: ex_closed_full_def channel_send_def send_loop.simps pthread_defs buffer_defs)
  have e: "CLOSED_ERROR \<noteq> SUCCESS"
    by simp
  have n: "fst (channel_non_blocking_send ex_open_full 8) = CHANNEL_FULL"
    by (simp add: ex_open_full_def channel_non_blocking_send_def pthread_defs buffer_defs
        Let_def)
  have y: "fst (channel_destroy ex_open_full) = DESTROY_ERROR"
    by (simp add: ex_open_full_def channel_destroy_def)
  from failing_paths_keep_buffer [of ex_open_full 8 "[([9], False), ([5], True)]" 0] s e
  have f: "\<exists>used rest. [([9], False), ([5], True)] = used @ rest \<and>
      items (buffer (ex_closed_full\<lparr>buffer := (buffer ex_closed_full)\<lparr>items := [5]\<rparr>\<rparr>)) =
        last (items (buffer ex_open_full) # map fst used) \<and>
      last (closed ex_open_full # map snd used) \<and>
      True \<notin> set (butlast (closed ex_open_full # map snd used))"
    by blast
  from failing_paths_keep_buffer [of ex_open_full 8 "[]" 0] n y
  have "buffer (snd (channel_non_blocking_send ex_open_full 8)) = buffer ex_open_full"
    and "buffer (snd (channel_destroy ex_open_full)) = buffer ex_open_full"
    by simp_all
  with s t e n y f show ?thesis by blast
qed

subsection \<open>C8: FIFO delivery\<close>

text \<open>
  Claim C8: \<open>n\<close> sends of items on one open channel, \<open>n\<close> not exceeding the capacity,
  followed by \<open>n\<close> receives on that channel: the receives yield the items in the order
  they were sent.

  The channel starts with an empty buffer, as \<^verbatim>\<open>channel_create\<close> leaves it. Every send
  and every receive returns \<open>SUCCESS\<close> without waiting, and the \<open>i\<close>-th receive puts the
  \<open>i\<close>-th item sent into the output slot. The items need not be distinct.
\<close>

theorem channel_fifo:
  "\<not> closed ch \<Longrightarrow> items (buffer ch) = [] \<Longrightarrow> length xs \<le> capacity (buffer ch) \<Longrightarrow>
   \<exists>ch1 ch2.
     send_each ch xs = Some (replicate (length xs) SUCCESS, ch1) \<and>
     receive_n ch1 (length xs) d = Some (map (Pair SUCCESS) xs, ch2)"
proof -
  assume e: "items (buffer ch) = []" and l: "length xs \<le> capacity (buffer ch)"
  define ch1 where
    "ch1 = (if xs = [] then ch
            else ch\<lparr>buffer := (buffer ch)\<lparr>items := items (buffer ch) @ xs\<rparr>, lock := Unlocked\<rparr>)"
  from e l have s: "send_each ch xs = Some (replicate (length xs) SUCCESS, ch1)"
    unfolding ch1_def by (intro send_each_appends) simp
  have "items (buffer ch1) = xs @ []" using e by (simp add: ch1_def)
  from receive_n_takes [OF this, of d] s show ?thesis by blast
qed

theorem channel_fifo_witness:
  "\<not> closed (channel_create 3 :: nat channel_t) \<and>
   items (buffer (channel_create 3 :: nat channel_t)) = [] \<and>
   length [10, 20, 30 :: nat] \<le> capacity (buffer (channel_create 3 :: nat channel_t)) \<and>
   (\<exists>ch1 ch2.
      send_each (channel_create 3) [10, 20, 30 :: nat] = Some ([SUCCESS, SUCCESS, SUCCESS], ch1) \<and>
      receive_n ch1 3 0 = Some ([(SUCCESS, 10), (SUCCESS, 20), (SUCCESS, 30)], ch2))"
proof -
  have a: "\<not> closed (channel_create 3 :: nat channel_t)"
    and b: "items (buffer (channel_create 3 :: nat channel_t)) = []"
    and c: "length [10, 20, 30 :: nat] \<le> capacity (buffer (channel_create 3 :: nat channel_t))"
    by (simp_all add: channel_create_def buffer_create_def)
  have n: "length [10, 20, 30 :: nat] = 3" by simp
  from channel_fifo [OF a b c, of 0] have
    "\<exists>ch1 ch2.
      send_each (channel_create 3) [10, 20, 30 :: nat] = Some ([SUCCESS, SUCCESS, SUCCESS], ch1) \<and>
      receive_n ch1 3 0 = Some ([(SUCCESS, 10), (SUCCESS, 20), (SUCCESS, 30)], ch2)"
    unfolding n by (simp add: numeral_3_eq_3)
  with a b c show ?thesis by blast
qed

subsection \<open>C9: the mutex on the CLOSED_ERROR paths\<close>

text \<open>
  Claim C9, as amended: on every \<open>CLOSED_ERROR\<close> return path of \<^verbatim>\<open>channel_send\<close> and
  \<^verbatim>\<open>channel_receive\<close>, the function releases the channel's lock before it returns.

  The claim as written says the lock is still acquired at the return. Both loops call
  \<^verbatim>\<open>pthread_mutex_unlock\<close> before \<^verbatim>\<open>return CLOSED_ERROR\<close>.
\<close>

theorem closed_error_releases_lock:
  "(\<forall>ch'. channel_send ch x ws = Returned CLOSED_ERROR ch' \<longrightarrow> lock ch' = Unlocked) \<and>
   (\<forall>ch' d'. channel_receive ch d ws = Returned CLOSED_ERROR (ch', d') \<longrightarrow>
      lock ch' = Unlocked)"
proof (intro conjI allI impI)
  fix ch' assume "channel_send ch x ws = Returned CLOSED_ERROR ch'"
  then show "lock ch' = Unlocked"
    using send_loop_failing [of "ch\<lparr>lock := Locked\<rparr>" x ws CLOSED_ERROR ch']
    by (simp add: channel_send_def pthread_defs)
next
  fix ch' d' assume "channel_receive ch d ws = Returned CLOSED_ERROR (ch', d')"
  then show "lock ch' = Unlocked"
    using receive_loop_failing [of "ch\<lparr>lock := Locked\<rparr>" d ws CLOSED_ERROR ch' d']
    by (simp add: channel_receive_def pthread_defs)
qed

text \<open>
  A sender blocked on the full open channel wakes to find the channel closed and still
  full; a receiver blocked on the empty open channel wakes to find it closed and still
  empty. Both return \<open>CLOSED_ERROR\<close> with the mutex unlocked.
\<close>

theorem closed_error_releases_lock_witness:
  "channel_send ex_open_full 8 [([7], True)] = Returned CLOSED_ERROR ex_closed_full \<and>
   channel_receive ex_open_empty 0 [([], True)] = Returned CLOSED_ERROR (ex_closed_empty, 0) \<and>
   lock ex_closed_full = Unlocked \<and> lock ex_closed_empty = Unlocked"
proof -
  have s: "channel_send ex_open_full 8 [([7], True)] = Returned CLOSED_ERROR ex_closed_full"
    by (simp add: ex_open_full_def ex_closed_full_def channel_send_def send_loop.simps
        pthread_cond_wait_def pthread_defs buffer_defs)
  have r: "channel_receive ex_open_empty 0 [([], True)] =
      Returned CLOSED_ERROR (ex_closed_empty, 0)"
    by (simp add: ex_open_empty_def ex_closed_empty_def channel_receive_def receive_loop.simps
        pthread_cond_wait_def pthread_defs buffer_defs)
  from closed_error_releases_lock [of ex_open_full 8 "[([7], True)]" 0] s
  have "lock ex_closed_full = Unlocked" by blast
  moreover from closed_error_releases_lock [of ex_open_empty 8 "[([], True)]" 0] r
  have "lock ex_closed_empty = Unlocked" by blast
  ultimately have "lock ex_closed_full = Unlocked" and "lock ex_closed_empty = Unlocked"
    by blast+
  with s r show ?thesis by simp
qed

text \<open>
  The claim as written fails on the closed full channel and on the closed empty channel:
  the calls return \<open>CLOSED_ERROR\<close> and the mutex is unlocked, not held.
\<close>

theorem closed_error_lock_not_held:
  "(case channel_send ex_closed_full 8 [] of
      Returned st ch' \<Rightarrow> st = CLOSED_ERROR \<and> lock ch' = Unlocked \<and> lock ch' \<noteq> Locked
    | Waiting ch' \<Rightarrow> False) \<and>
   (case channel_receive ex_closed_empty 0 [] of
      Returned st r \<Rightarrow> st = CLOSED_ERROR \<and> lock (fst r) = Unlocked \<and> lock (fst r) \<noteq> Locked
    | Waiting r \<Rightarrow> False)"
  by (simp add: ex_closed_full_def ex_closed_empty_def channel_send_def channel_receive_def
      send_loop.simps receive_loop.simps pthread_defs buffer_defs)

subsection \<open>C10: what channel_select does\<close>

text \<open>
  Claim C10: for every request list, count and \<^verbatim>\<open>selected_index\<close>, \<^verbatim>\<open>channel_select\<close>
  returns \<open>SUCCESS\<close>, never writes to \<^verbatim>\<open>*selected_index\<close>, and leaves the buffer contents
  and the closed flag of every listed channel unchanged.
\<close>

theorem channel_select_frame:
  "fst (channel_select channel_list channel_count selected_index) = SUCCESS \<and>
   snd (snd (channel_select channel_list channel_count selected_index)) = selected_index \<and>
   map (\<lambda>e. (items (buffer (sel_channel e)), closed (sel_channel e)))
     (fst (snd (channel_select channel_list channel_count selected_index))) =
   map (\<lambda>e. (items (buffer (sel_channel e)), closed (sel_channel e))) channel_list"
  by (simp add: channel_select_def)


end
